theory Spec2Isabelle
  imports Main
begin

section \<open>Exceptions\<close>

text \<open>
  Every \<^verbatim>\<open>raise\<close> of \<^verbatim>\<open>main.py\<close> is a value of \<open>exn\<close>. \<open>HTTPException c d\<close> is
  \<^verbatim>\<open>HTTPException(status_code=c, detail=d)\<close> with a fixed detail text. The two handlers
  of the CSV endpoint build a new \<^verbatim>\<open>HTTPException(400, ...)\<close> around the exception they
  caught (its text goes into the detail): \<open>RowError e\<close> is
  \<^verbatim>\<open>"Error processing row: " + str(e)\<close> and \<open>FileError e\<close> is
  \<^verbatim>\<open>"Error processing CSV file: " + str(e)\<close>. \<open>AttributeError\<close> is what Python raises
  for \<^verbatim>\<open>None.strip()\<close>; \<open>IntegrityError\<close> is what the store raises at commit when a
  uniqueness constraint is violated.
\<close>

datatype exn =
    HTTPException nat string
  | AttributeError
  | IntegrityError
  | RowError exn
  | FileError exn

text \<open>The status of the response: an exception no handler catches is a server error.\<close>

fun status_code :: "exn \<Rightarrow> nat" where
  "status_code (HTTPException c d) = c"
| "status_code AttributeError = 500"
| "status_code IntegrityError = 500"
| "status_code (RowError e) = 400"
| "status_code (FileError e) = 400"

section \<open>Schemas and rows (\<^verbatim>\<open>schemas.py\<close>)\<close>

text \<open>
  \<^verbatim>\<open>PlayerBase\<close>: \<^verbatim>\<open>name: str\<close> is required, the other four fields are
  \<^verbatim>\<open>Optional[...] = None\<close>. \<^verbatim>\<open>PlayerCreate\<close> adds nothing; \<^verbatim>\<open>Player\<close> extends it by
  the columns the store assigns. Python's \<^verbatim>\<open>int\<close> is unbounded, timestamps are
  natural numbers, strings are lists of characters (code points below 256).
\<close>

record PlayerBase =
  name :: string
  position :: "string option"
  team :: "string option"
  age :: "int option"
  jersey_number :: "int option"

type_synonym PlayerCreate = PlayerBase

record Player = PlayerBase +
  player_id :: nat
  created_at :: nat
  updated_at :: "nat option"

text \<open>
  \<^verbatim>\<open>PlayerUpdate\<close> makes every field optional, and \<^verbatim>\<open>update_player\<close> reads it with
  \<^verbatim>\<open>dict(exclude_unset=True)\<close>: a field is either left out of the request (\<open>None\<close>
  here) or supplied (\<open>Some v\<close>), and a supplied optional field may be \<^verbatim>\<open>null\<close>
  (\<open>Some None\<close>). The name is supplied as a string: a request that carries
  \<^verbatim>\<open>"name": null\<close> is outside this model, what the store does with it is decided by
  the column declaration of \<^verbatim>\<open>models.py\<close>.
\<close>

record PlayerUpdate =
  set_name :: "string option"
  set_position :: "string option option"
  set_team :: "string option option"
  set_age :: "int option option"
  set_jersey_number :: "int option option"

text \<open>\<^verbatim>\<open>UserCreate\<close> (\<^verbatim>\<open>UserBase\<close> plus the password) and the stored \<^verbatim>\<open>User\<close>.\<close>

record UserCreate =
  new_email :: string
  new_username :: string
  new_password :: string

record User =
  user_id :: nat
  email :: string
  username :: string
  hashed_password :: string
  is_active :: bool
  user_created_at :: nat

section \<open>The store\<close>

text \<open>
  The relational store is an external collaborator. A table is the list of its rows in
  insertion order, which is the order an unordered query returns them in; the store
  accepts every value of a column's type. Ids come from a counter per table.
\<close>

record store =
  players :: "Player list"
  next_player_id :: nat
  users :: "User list"
  next_user_id :: nat

definition empty_store :: store where
  "empty_store = \<lparr>players = [], next_player_id = 1, users = [], next_user_id = 1\<rparr>"

text \<open>\<^verbatim>\<open>db.query(models.Player).filter(models.Player.id == player_id).first()\<close>\<close>

definition first_player :: "store \<Rightarrow> nat \<Rightarrow> Player option" where
  "first_player db i = find (\<lambda>p. player_id p = i) (players db)"

text \<open>
  \<^verbatim>\<open>models.Player(**player.dict()); db.add; db.commit; db.refresh\<close>: the store assigns
  the id and \<^verbatim>\<open>created_at\<close>; \<^verbatim>\<open>updated_at\<close> starts unset.
\<close>

definition new_player :: "nat \<Rightarrow> store \<Rightarrow> PlayerCreate \<Rightarrow> Player" where
  "new_player now db pc =
     \<lparr>name = name pc, position = position pc, team = team pc, age = age pc,
      jersey_number = jersey_number pc,
      player_id = next_player_id db, created_at = now, updated_at = None\<rparr>"

definition add_player :: "nat \<Rightarrow> store \<Rightarrow> PlayerCreate \<Rightarrow> Player \<times> store" where
  "add_player now db pc =
     (let p = new_player now db pc
      in (p, db\<lparr>players := players db @ [p], next_player_id := Suc (next_player_id db)\<rparr>))"

text \<open>\<^verbatim>\<open>db.delete(player); db.commit()\<close>: \<^verbatim>\<open>DELETE ... WHERE id = ?\<close>.\<close>

definition delete_row :: "store \<Rightarrow> nat \<Rightarrow> store" where
  "delete_row db i = db\<lparr>players := filter (\<lambda>p. player_id p \<noteq> i) (players db)\<rparr>"

text \<open>The commit of a changed row: \<^verbatim>\<open>UPDATE ... WHERE id = ?\<close>.\<close>

definition update_row :: "store \<Rightarrow> Player \<Rightarrow> store" where
  "update_row db p' =
     db\<lparr>players := map (\<lambda>p. if player_id p = player_id p' then p' else p) (players db)\<rparr>"

section \<open>Player endpoints (\<^verbatim>\<open>main.py\<close>)\<close>

definition create_player :: "nat \<Rightarrow> PlayerCreate \<Rightarrow> store \<Rightarrow> Player \<times> store" where
  "create_player now player db = add_player now db player"

text \<open>\<^verbatim>\<open>offset(skip).limit(limit).all()\<close>, for non-negative \<^verbatim>\<open>skip\<close> and \<^verbatim>\<open>limit\<close>.\<close>

definition read_players :: "nat \<Rightarrow> nat \<Rightarrow> store \<Rightarrow> Player list" where
  "read_players skip limit db = take limit (drop skip (players db))"

definition read_player :: "nat \<Rightarrow> store \<Rightarrow> exn + Player" where
  "read_player i db =
     (case first_player db i of
        None \<Rightarrow> Inl (HTTPException 404 ''Player not found'')
      | Some player \<Rightarrow> Inr player)"

definition delete_player :: "nat \<Rightarrow> store \<Rightarrow> (exn + string) \<times> store" where
  "delete_player i db =
     (case first_player db i of
        None \<Rightarrow> (Inl (HTTPException 404 ''Player not found''), db)
      | Some player \<Rightarrow> (Inr ''Player deleted successfully'', delete_row db (player_id player)))"

text \<open>
  \<^verbatim>\<open>update_player\<close>: 404 when no row has the id; otherwise one \<^verbatim>\<open>setattr\<close> for every
  field the request supplies, in the order of the schema's fields.

  Modelled from the spec: the column \<^verbatim>\<open>updated_at\<close> of \<^verbatim>\<open>models.Player\<close>
  (\<^verbatim>\<open>models.py\<close> is not among the sources) is refreshed by an update.
\<close>

definition setattrs :: "PlayerUpdate \<Rightarrow> Player \<Rightarrow> Player" where
  "setattrs u p0 =
     (let p1 = (case set_name u of None \<Rightarrow> p0 | Some v \<Rightarrow> p0\<lparr>name := v\<rparr>);
          p2 = (case set_position u of None \<Rightarrow> p1 | Some v \<Rightarrow> p1\<lparr>position := v\<rparr>);
          p3 = (case set_team u of None \<Rightarrow> p2 | Some v \<Rightarrow> p2\<lparr>team := v\<rparr>);
          p4 = (case set_age u of None \<Rightarrow> p3 | Some v \<Rightarrow> p3\<lparr>age := v\<rparr>);
          p5 = (case set_jersey_number u of None \<Rightarrow> p4 | Some v \<Rightarrow> p4\<lparr>jersey_number := v\<rparr>)
      in p5)"

definition update_player ::
  "nat \<Rightarrow> nat \<Rightarrow> PlayerUpdate \<Rightarrow> store \<Rightarrow> (exn + Player) \<times> store" where
  "update_player now i player db =
     (case first_player db i of
        None \<Rightarrow> (Inl (HTTPException 404 ''Player not found''), db)
      | Some db_player \<Rightarrow>
          (let p' = (setattrs player db_player)\<lparr>updated_at := Some now\<rparr>
           in (Inr p', update_row db p')))"

subsection \<open>Search\<close>

text \<open>
  \<^verbatim>\<open>models.Player.name.ilike(f"%{name}%")\<close> is the SQL operator \<^verbatim>\<open>LIKE\<close> on the
  lower-cased pattern and value. In a pattern \<^verbatim>\<open>%\<close> stands for any run of characters
  and \<^verbatim>\<open>_\<close> for any one character. Whether a backslash escapes the next character
  of the pattern depends on the dialect of the engine that \<^verbatim>\<open>database.py\<close> configures,
  so it is a parameter (\<open>esc\<close>); a pattern that ends in an escaping backslash
  matches nothing. Case is folded on the ASCII letters.
\<close>

definition lower_char :: "char \<Rightarrow> char" where
  "lower_char c =
     (let n = (of_char c :: nat) in if 65 \<le> n \<and> n \<le> 90 then char_of (n + 32) else c)"

definition lower :: "string \<Rightarrow> string" where
  "lower s = map lower_char s"

fun like :: "bool \<Rightarrow> string \<Rightarrow> string \<Rightarrow> bool" where
  "like esc [] s = (s = [])"
| "like esc (c # pat) s =
     (if esc \<and> c = CHR 0x5C then
        (case pat of
           [] \<Rightarrow> False
         | d # pat' \<Rightarrow> (case s of [] \<Rightarrow> False | x # xs \<Rightarrow> x = d \<and> like esc pat' xs))
      else if c = CHR ''%'' then
        (like esc pat s \<or> (case s of [] \<Rightarrow> False | x # xs \<Rightarrow> like esc (c # pat) xs))
      else if c = CHR ''_'' then
        (case s of [] \<Rightarrow> False | x # xs \<Rightarrow> like esc pat xs)
      else
        (case s of [] \<Rightarrow> False | x # xs \<Rightarrow> x = c \<and> like esc pat xs))"

definition ilike :: "bool \<Rightarrow> string \<Rightarrow> string \<Rightarrow> bool" where
  "ilike esc pat s = like esc (lower pat) (lower s)"

definition search_players_by_name ::
  "bool \<Rightarrow> string \<Rightarrow> nat \<Rightarrow> nat \<Rightarrow> store \<Rightarrow> exn + Player list" where
  "search_players_by_name esc nm skip limit db =
     (let found = take limit (drop skip
                    (filter (\<lambda>p. ilike esc (''%'' @ nm @ ''%'') (name p)) (players db)))
      in if found = [] then Inl (HTTPException 404 ''No players found with the given name'')
         else Inr found)"

text \<open>
  The specification's reading of the search: the name contains the substring, case
  ignored. \<open>contains sub s\<close> holds when \<open>sub\<close> occurs in \<open>s\<close> at some offset.
\<close>

definition contains :: "string \<Rightarrow> string \<Rightarrow> bool" where
  "contains sub s = list_ex (\<lambda>i. take (length sub) (drop i s) = sub) [0..<Suc (length s)]"

definition contains_ci :: "string \<Rightarrow> string \<Rightarrow> bool" where
  "contains_ci sub s = contains (lower sub) (lower s)"

section \<open>Signup\<close>

text \<open>
  Modelled from the spec: \<^verbatim>\<open>auth.get_user\<close> (\<^verbatim>\<open>auth.py\<close> is not among the sources) is
  the Credential Store's lookup by username.
\<close>

definition get_user :: "store \<Rightarrow> string \<Rightarrow> User option" where
  "get_user db n = find (\<lambda>u. username u = n) (users db)"

text \<open>
  Modelled from the spec: the table of \<^verbatim>\<open>models.User\<close> (\<^verbatim>\<open>models.py\<close> is not among the
  sources) declares \<^verbatim>\<open>email\<close> and \<^verbatim>\<open>username\<close> unique, and a new user has
  \<^verbatim>\<open>is_active = true\<close>; the store assigns the id and the creation time. The commit
  of a row that repeats an email or a username raises, and stores nothing.
\<close>

definition add_user :: "nat \<Rightarrow> store \<Rightarrow> string \<Rightarrow> string \<Rightarrow> string \<Rightarrow> exn + User \<times> store" where
  "add_user now db e n h =
     (if e \<in> set (map email (users db)) \<or> n \<in> set (map username (users db))
      then Inl IntegrityError
      else (let u = \<lparr>user_id = next_user_id db, email = e, username = n,
                      hashed_password = h, is_active = True, user_created_at = now\<rparr>
            in Inr (u, db\<lparr>users := users db @ [u], next_user_id := Suc (next_user_id db)\<rparr>)))"

text \<open>
  \<^verbatim>\<open>signup\<close>. The password hasher \<^verbatim>\<open>auth.get_password_hash\<close> is a parameter
  (\<open>get_password_hash\<close>, the hasher with the salt of this call).
\<close>

definition signup ::
  "(string \<Rightarrow> string) \<Rightarrow> nat \<Rightarrow> UserCreate \<Rightarrow> store \<Rightarrow> (exn + User) \<times> store" where
  "signup get_password_hash now user db =
     (case get_user db (new_username user) of
        Some db_user \<Rightarrow> (Inl (HTTPException 400 ''Username already registered''), db)
      | None \<Rightarrow>
          (let hashed = get_password_hash (new_password user)
           in (case add_user now db (new_email user) (new_username user) hashed of
                 Inl e \<Rightarrow> (Inl e, db)
               | Inr (db_user, db') \<Rightarrow> (Inr db_user, db'))))"

section \<open>CSV import\<close>

subsection \<open>Python's string functions\<close>

text \<open>
  \<^verbatim>\<open>str.strip()\<close> removes leading and trailing whitespace; below code point 256 the
  whitespace characters are 9 to 13, 28 to 32, 133 and 160.
\<close>

definition is_space :: "char \<Rightarrow> bool" where
  "is_space c =
     (let n = (of_char c :: nat)
      in (9 \<le> n \<and> n \<le> 13) \<or> (28 \<le> n \<and> n \<le> 32) \<or> n = 133 \<or> n = 160)"

definition strip :: "string \<Rightarrow> string" where
  "strip s = rev (dropWhile is_space (rev (dropWhile is_space s)))"

definition endswith :: "string \<Rightarrow> string \<Rightarrow> bool" where
  "endswith s suf = (length suf \<le> length s \<and> drop (length s - length suf) s = suf)"

text \<open>
  \<^verbatim>\<open>int(s)\<close> on a string. The whitespace that \<^verbatim>\<open>int\<close> skips around the number is
  not that of \<^verbatim>\<open>str.strip()\<close>: below code point 256 it is 9 to 13, 32, 133 and 160,
  and the separators 28 to 31 are not skipped. Then come an optional sign and the
  decimal digits, where single underscores may stand between digits. A number of more
  than 4300 digits (the default of \<^verbatim>\<open>sys.int_max_str_digits\<close>; underscores are not
  counted, leading zeros are) is refused. \<open>None\<close> is \<^verbatim>\<open>ValueError\<close>.
\<close>

definition is_int_space :: "char \<Rightarrow> bool" where
  "is_int_space c =
     (let n = (of_char c :: nat)
      in (9 \<le> n \<and> n \<le> 13) \<or> n = 32 \<or> n = 133 \<or> n = 160)"

definition int_strip :: "string \<Rightarrow> string" where
  "int_strip s = rev (dropWhile is_int_space (rev (dropWhile is_int_space s)))"

definition max_str_digits :: nat where
  "max_str_digits = 4300"

definition is_digit :: "char \<Rightarrow> bool" where
  "is_digit c = (let n = (of_char c :: nat) in 48 \<le> n \<and> n \<le> 57)"

definition digit_val :: "char \<Rightarrow> nat" where
  "digit_val c = (of_char c :: nat) - 48"

fun int_digits :: "nat \<Rightarrow> bool \<Rightarrow> string \<Rightarrow> nat option" where
  "int_digits acc prev [] = (if prev then Some acc else None)"
| "int_digits acc prev (c # cs) =
     (if is_digit c then int_digits (10 * acc + digit_val c) True cs
      else if c = CHR ''_'' \<and> prev then int_digits acc False cs
      else None)"

definition py_int :: "string \<Rightarrow> int option" where
  "py_int s =
     (case int_strip s of
        [] \<Rightarrow> None
      | c # cs \<Rightarrow>
          (let body = (if c = CHR ''+'' \<or> c = CHR ''-'' then cs else c # cs)
           in if max_str_digits < length (filter is_digit body) then None
              else if c = CHR ''-'' then map_option (\<lambda>n. - int n) (int_digits 0 False body)
              else map_option int (int_digits 0 False body)))"

subsection \<open>\<^verbatim>\<open>csv.DictReader\<close>\<close>

text \<open>
  The uploaded file is its declared name and its body. The body is given as the records
  that \<^verbatim>\<open>csv.reader\<close> yields for the decoded text, one list of cells per line (an empty
  list for a blank line). \<^verbatim>\<open>csv.DictReader\<close> takes the first record as the field names
  and skips blank records; a row is \<^verbatim>\<open>dict(zip(fieldnames, record))\<close>, where a later
  duplicate of a field name wins, cells beyond the field names go under the key
  \<^verbatim>\<open>None\<close> (which no lookup by a string reaches) and the field names beyond a short
  record get the value \<^verbatim>\<open>None\<close>. A row maps a field name to \<open>Some (Some v)\<close> for a
  cell \<open>v\<close> and to \<open>Some None\<close> for the value \<^verbatim>\<open>None\<close>.
\<close>

record UploadFile =
  filename :: string
  records :: "string list list"

type_synonym row = "string \<rightharpoonup> string option"

definition dict_row :: "string list \<Rightarrow> string list \<Rightarrow> row" where
  "dict_row fieldnames record =
     map_of (rev (zip fieldnames
                    (map Some record @ replicate (length fieldnames - length record) None)))"

fun DictReader :: "string list list \<Rightarrow> row list" where
  "DictReader [] = []"
| "DictReader (fieldnames # recs) = map (dict_row fieldnames) (filter (\<lambda>r. r \<noteq> []) recs)"

subsection \<open>\<^verbatim>\<open>upload_players_csv\<close>\<close>

text \<open>
  The optional fields: \<^verbatim>\<open>if k in row and row[k].strip(): ...\<close>. The value \<^verbatim>\<open>None\<close> has
  no \<^verbatim>\<open>strip\<close>. For the two integer fields a \<^verbatim>\<open>ValueError\<close> of \<^verbatim>\<open>int\<close> is passed over.
\<close>

definition opt_str :: "row \<Rightarrow> string \<Rightarrow> exn + string option" where
  "opt_str r k =
     (case r k of
        None \<Rightarrow> Inr None
      | Some None \<Rightarrow> Inl AttributeError
      | Some (Some v) \<Rightarrow> Inr (if strip v \<noteq> [] then Some (strip v) else None))"

definition opt_int :: "row \<Rightarrow> string \<Rightarrow> exn + int option" where
  "opt_int r k =
     (case r k of
        None \<Rightarrow> Inr None
      | Some None \<Rightarrow> Inl AttributeError
      | Some (Some v) \<Rightarrow> Inr (if strip v \<noteq> [] then py_int v else None))"

definition player_data :: "row \<Rightarrow> exn + PlayerCreate" where
  "player_data r =
     (case r ''name'' of
        None \<Rightarrow> Inl (HTTPException 400 ''Name field is required'')
      | Some None \<Rightarrow> Inl AttributeError
      | Some (Some nm) \<Rightarrow>
          if strip nm = [] then Inl (HTTPException 400 ''Name field is required'')
          else
            (case opt_str r ''position'' of Inl e \<Rightarrow> Inl e | Inr pos \<Rightarrow>
            (case opt_str r ''team'' of Inl e \<Rightarrow> Inl e | Inr tm \<Rightarrow>
            (case opt_int r ''age'' of Inl e \<Rightarrow> Inl e | Inr ag \<Rightarrow>
            (case opt_int r ''jersey_number'' of Inl e \<Rightarrow> Inl e | Inr jn \<Rightarrow>
               Inr \<lparr>name = strip nm, position = pos, team = tm, age = ag,
                    jersey_number = jn\<rparr>)))))"

text \<open>
  The handlers of the inner \<^verbatim>\<open>try\<close>: an \<^verbatim>\<open>HTTPException\<close> is raised again as it is,
  any other exception becomes the 400 of a row error.
\<close>

fun row_handler :: "exn \<Rightarrow> exn" where
  "row_handler AttributeError = RowError AttributeError"
| "row_handler IntegrityError = RowError IntegrityError"
| "row_handler e = e"

definition process_row :: "nat \<Rightarrow> row \<Rightarrow> store \<Rightarrow> (exn + Player) \<times> store" where
  "process_row now r db =
     (case player_data r of
        Inl e \<Rightarrow> (Inl (row_handler e), db)
      | Inr player_in \<Rightarrow> (let (db_player, db') = add_player now db player_in
                          in (Inr db_player, db')))"

fun import_rows ::
  "nat \<Rightarrow> row list \<Rightarrow> Player list \<Rightarrow> store \<Rightarrow> (exn + Player list) \<times> store" where
  "import_rows now [] created_players db = (Inr created_players, db)"
| "import_rows now (r # rs) created_players db =
     (case process_row now r db of
        (Inl e, db') \<Rightarrow> (Inl e, db')
      | (Inr db_player, db') \<Rightarrow> import_rows now rs (created_players @ [db_player]) db')"

text \<open>
  The endpoint: the check of the file name is outside the outer \<^verbatim>\<open>try\<close>, whose handler
  turns every exception of the loop, the \<^verbatim>\<open>HTTPException\<close> of a row included, into the
  400 of a file error. Rows committed before the exception stay in the store.
\<close>

definition upload_players_csv ::
  "nat \<Rightarrow> UploadFile \<Rightarrow> store \<Rightarrow> (exn + Player list) \<times> store" where
  "upload_players_csv now file db =
     (if \<not> endswith (filename file) ''.csv''
      then (Inl (HTTPException 400 ''Only CSV files are allowed''), db)
      else (case import_rows now (DictReader (records file)) [] db of
              (Inl e, db') \<Rightarrow> (Inl (FileError e), db')
            | (Inr created_players, db') \<Rightarrow> (Inr created_players, db')))"

section \<open>Stores and requests used as examples\<close>

definition alice :: PlayerCreate where
  "alice = \<lparr>name = ''Alice'', position = Some ''Forward'', team = Some ''Reds'',
            age = Some 30, jersey_number = Some 9\<rparr>"

definition db_alice :: store where
  "db_alice = snd (create_player 1 alice empty_store)"

definition team_only :: "string \<Rightarrow> PlayerUpdate" where
  "team_only x = \<lparr>set_name = None, set_position = None, set_team = Some (Some x),
                  set_age = None, set_jersey_number = None\<rparr>"

text \<open>
  A row whose name field is absent (no such column, or the value \<^verbatim>\<open>None\<close> of a short
  record) or empty after \<^verbatim>\<open>strip\<close>.
\<close>

definition name_missing :: "row \<Rightarrow> bool" where
  "name_missing r =
     (case r ''name'' of None \<Rightarrow> True | Some None \<Rightarrow> True | Some (Some v) \<Rightarrow> strip v = [])"

text \<open>The rows that the store holds after it has inserted a list of players, for ids
  from \<open>n\<close> on.\<close>

fun stored_rows :: "nat \<Rightarrow> nat \<Rightarrow> PlayerCreate list \<Rightarrow> Player list" where
  "stored_rows now n [] = []"
| "stored_rows now n (pc # pcs) =
     \<lparr>name = name pc, position = position pc, team = team pc, age = age pc,
      jersey_number = jersey_number pc,
      player_id = n, created_at = now, updated_at = None\<rparr> # stored_rows now (Suc n) pcs"

text \<open>The primary key of the players table: ids are distinct and below the counter.\<close>

definition ids_ok :: "store \<Rightarrow> bool" where
  "ids_ok db = (distinct (map player_id (players db)) \<and>
                list_all (\<lambda>p. player_id p < next_player_id db) (players db))"

definition alice_guard_file :: UploadFile where
  "alice_guard_file =
     \<lparr>filename = ''players.csv'',
      records = [[''name'', ''position''], [''Alice'', ''Forward''], ['''', ''Guard'']]\<rparr>"

definition bob_age_file :: UploadFile where
  "bob_age_file =
     \<lparr>filename = ''players.csv'', records = [[''name'', ''age''], [''Bob'', ''notanumber'']]\<rparr>"

definition bob_short_file :: UploadFile where
  "bob_short_file =
     \<lparr>filename = ''players.csv'',
      records = [[''name'', ''age'', ''team''], [''Bob'', ''notanumber'']]\<rparr>"

definition text_file :: UploadFile where
  "text_file =
     \<lparr>filename = ''players.txt'', records = [[''name'', ''age''], [''Bob'', ''41'']]\<rparr>"

definition toy_hash :: "string \<Rightarrow> string" where
  "toy_hash pw = ''#'' @ pw"

definition ann :: UserCreate where
  "ann = \<lparr>new_email = ''ann@club.org'', new_username = ''ann'', new_password = ''pw1''\<rparr>"

definition db_ann :: store where
  "db_ann = snd (signup toy_hash 3 ann empty_store)"

definition ann_again :: UserCreate where
  "ann_again = \<lparr>new_email = ''other@club.org'', new_username = ''ann'', new_password = ''pw2''\<rparr>"

definition annie :: UserCreate where
  "annie = \<lparr>new_email = ''ann@club.org'', new_username = ''annie'', new_password = ''pw3''\<rparr>"

definition bea :: UserCreate where
  "bea = \<lparr>new_email = ''ann@club.org'', new_username = ''bea'', new_password = ''pw4''\<rparr>"

definition cleo :: UserCreate where
  "cleo = \<lparr>new_email = ''cleo@club.org'', new_username = ''cleo'', new_password = ''pw5''\<rparr>"

text \<open>The invariant of the specification: no stored player has a blank name.\<close>

definition names_ok :: "store \<Rightarrow> bool" where
  "names_ok db = list_all (\<lambda>p. strip (name p) \<noteq> []) (players db)"

definition blank_player :: PlayerCreate where
  "blank_player = \<lparr>name = ''  '', position = None, team = None, age = None,
                   jersey_number = None\<rparr>"

definition name_only :: "string \<Rightarrow> PlayerUpdate" where
  "name_only x = \<lparr>set_name = Some x, set_position = None, set_team = None,
                  set_age = None, set_jersey_number = None\<rparr>"

text \<open>A search string without a character that \<^verbatim>\<open>LIKE\<close> treats specially.\<close>

definition plain :: "string \<Rightarrow> bool" where
  "plain s = list_all (\<lambda>c. c \<noteq> CHR ''%'' \<and> c \<noteq> CHR ''_'' \<and> c \<noteq> CHR 0x5C) s"

section \<open>Properties\<close>

lemma first_player_Some_id: "first_player db i = Some p \<Longrightarrow> player_id p = i"
  by (auto simp: first_player_def find_Some_iff)

lemma first_player_None_iff: "first_player db i = None \<longleftrightarrow> i \<notin> player_id ` set (players db)"
  by (auto simp: first_player_def find_None_iff)

lemma first_player_delete_row: "first_player (delete_row db i) i = None"
  by (auto simp: first_player_None_iff delete_row_def)

lemma find_map_same:
  assumes "\<And>x. P (f x) = P x"
  shows "find P (map f xs) = map_option f (find P xs)"
  using assms by (induction xs) auto

lemma first_player_update_row:
  assumes "first_player db i = Some p" and "player_id p' = i"
  shows "first_player (update_row db p') i = Some p'"
proof -
  have "find (\<lambda>q. player_id q = i) (map (\<lambda>q. if player_id q = i then p' else q) (players db))
        = map_option (\<lambda>q. if player_id q = i then p' else q)
            (find (\<lambda>q. player_id q = i) (players db))"
    by (rule find_map_same) (simp add: assms(2))
  moreover have "find (\<lambda>q. player_id q = i) (players db) = Some p"
    using assms(1) by (simp add: first_player_def)
  moreover have "player_id p = i"
    using assms(1) by (rule first_player_Some_id)
  ultimately show ?thesis
    using assms(2) by (simp add: first_player_def update_row_def)
qed

lemma setattrs_frame:
  "player_id (setattrs u p) = player_id p"
  "created_at (setattrs u p) = created_at p"
  "updated_at (setattrs u p) = updated_at p"
  by (simp_all add: setattrs_def Let_def split: option.splits)

lemma setattrs_fields:
  "name (setattrs u p) = (case set_name u of None \<Rightarrow> name p | Some v \<Rightarrow> v)"
  "position (setattrs u p) = (case set_position u of None \<Rightarrow> position p | Some v \<Rightarrow> v)"
  "team (setattrs u p) = (case set_team u of None \<Rightarrow> team p | Some v \<Rightarrow> v)"
  "age (setattrs u p) = (case set_age u of None \<Rightarrow> age p | Some v \<Rightarrow> v)"
  "jersey_number (setattrs u p) =
     (case set_jersey_number u of None \<Rightarrow> jersey_number p | Some v \<Rightarrow> v)"
  by (simp_all add: setattrs_def Let_def split: option.splits)

subsection \<open>Delete, then get\<close>

text \<open>
  Claim C7. When a row of the store has the id, \<open>delete_player\<close> succeeds and in the
  store it leaves \<open>read_player\<close> of that id fails with 404 (not found); when no row
  has the id, \<open>delete_player\<close> itself fails with 404 and leaves the store as it was.
\<close>

theorem delete_then_read:
  "(i \<in> player_id ` set (players db) \<longrightarrow>
      (\<exists>db'. delete_player i db = (Inr ''Player deleted successfully'', db') \<and>
             read_player i db' = Inl (HTTPException 404 ''Player not found''))) \<and>
   (i \<notin> player_id ` set (players db) \<longrightarrow>
      delete_player i db = (Inl (HTTPException 404 ''Player not found''), db))"
proof (cases "first_player db i")
  case None
  then show ?thesis
    by (simp add: delete_player_def first_player_None_iff [symmetric])
next
  case (Some p)
  then have present: "i \<in> player_id ` set (players db)"
    using first_player_None_iff [of db i] by simp
  have "player_id p = i"
    using Some by (rule first_player_Some_id)
  then have "delete_player i db = (Inr ''Player deleted successfully'', delete_row db i)"
    using Some by (simp add: delete_player_def)
  moreover have "read_player i (delete_row db i) = Inl (HTTPException 404 ''Player not found'')"
    by (simp add: read_player_def first_player_delete_row)
  ultimately show ?thesis
    using present by simp
qed

theorem delete_then_read_witness:
  "1 \<in> player_id ` set (players db_alice) \<and>
   (\<exists>db'. delete_player 1 db_alice = (Inr ''Player deleted successfully'', db') \<and>
          read_player 1 db' = Inl (HTTPException 404 ''Player not found'')) \<and>
   2 \<notin> player_id ` set (players db_alice) \<and>
   delete_player 2 db_alice = (Inl (HTTPException 404 ''Player not found''), db_alice)"
proof -
  have a: "1 \<in> player_id ` set (players db_alice)"
    by (simp add: db_alice_def create_player_def add_player_def new_player_def
        empty_store_def Let_def)
  have b: "2 \<notin> player_id ` set (players db_alice)"
    by (simp add: db_alice_def create_player_def add_player_def new_player_def
        empty_store_def Let_def)
  show ?thesis
    using a b delete_then_read [of 1 db_alice] delete_then_read [of 2 db_alice]
    by simp
qed

subsection \<open>Partial update\<close>

lemma update_row_others:
  "filter (\<lambda>q. player_id q \<noteq> player_id p') (players (update_row db p'))
   = filter (\<lambda>q. player_id q \<noteq> player_id p') (players db)"
proof -
  have "filter (\<lambda>q. player_id q \<noteq> i) (map (\<lambda>q. if player_id q = i then p' else q) xs)
        = filter (\<lambda>q. player_id q \<noteq> i) xs" if "player_id p' = i" for i xs
    using that by (induction xs) auto
  then show ?thesis
    by (simp add: update_row_def)
qed

text \<open>
  Claim C3. Let \<open>p\<close> be the row that the store returns for the id. Then
  \<open>update_player\<close> succeeds with a row \<open>p'\<close> in which each of the five fields has
  the value the request supplies for it, and the value it has in \<open>p\<close> when the request
  does not supply it; the id and the creation time are those of \<open>p\<close>. Afterwards the
  store returns \<open>p'\<close> for the id, and the rows of the other ids are as before. In
  particular a request that supplies only the team changes only the team. When no row
  has the id, \<open>update_player\<close> fails with 404 (not found) and leaves the store as it
  was.
\<close>

theorem update_overwrites_supplied_only:
  "(first_player db i = Some p \<longrightarrow>
      (\<exists>p' db'. update_player now i u db = (Inr p', db') \<and>
         name p' = (case set_name u of None \<Rightarrow> name p | Some v \<Rightarrow> v) \<and>
         position p' = (case set_position u of None \<Rightarrow> position p | Some v \<Rightarrow> v) \<and>
         team p' = (case set_team u of None \<Rightarrow> team p | Some v \<Rightarrow> v) \<and>
         age p' = (case set_age u of None \<Rightarrow> age p | Some v \<Rightarrow> v) \<and>
         jersey_number p' =
           (case set_jersey_number u of None \<Rightarrow> jersey_number p | Some v \<Rightarrow> v) \<and>
         player_id p' = i \<and> created_at p' = created_at p \<and>
         read_player i db' = Inr p' \<and>
         filter (\<lambda>q. player_id q \<noteq> i) (players db')
           = filter (\<lambda>q. player_id q \<noteq> i) (players db) \<and>
         users db' = users db)) \<and>
   (first_player db i = Some p \<longrightarrow>
      (\<exists>p' db'. update_player now i (team_only x) db = (Inr p', db') \<and>
         team p' = Some x \<and> name p' = name p \<and> position p' = position p \<and>
         age p' = age p \<and> jersey_number p' = jersey_number p)) \<and>
   (first_player db i = None \<longrightarrow>
      update_player now i u db = (Inl (HTTPException 404 ''Player not found''), db))"
proof (intro conjI impI)
  assume found: "first_player db i = Some p"
  have pid: "player_id p = i"
    using found by (rule first_player_Some_id)
  define p' where "p' = (setattrs u p)\<lparr>updated_at := Some now\<rparr>"
  have pid': "player_id p' = i"
    by (simp add: p'_def setattrs_frame pid)
  have run: "update_player now i u db = (Inr p', update_row db p')"
    using found by (simp add: update_player_def p'_def Let_def)
  have get: "read_player i (update_row db p') = Inr p'"
    using first_player_update_row [OF found pid'] by (simp add: read_player_def)
  have others: "filter (\<lambda>q. player_id q \<noteq> i) (players (update_row db p'))
                = filter (\<lambda>q. player_id q \<noteq> i) (players db)"
    using update_row_others [of p' db] by (simp add: pid')
  have users: "users (update_row db p') = users db"
    by (simp add: update_row_def)
  show "\<exists>p' db'. update_player now i u db = (Inr p', db') \<and>
         name p' = (case set_name u of None \<Rightarrow> name p | Some v \<Rightarrow> v) \<and>
         position p' = (case set_position u of None \<Rightarrow> position p | Some v \<Rightarrow> v) \<and>
         team p' = (case set_team u of None \<Rightarrow> team p | Some v \<Rightarrow> v) \<and>
         age p' = (case set_age u of None \<Rightarrow> age p | Some v \<Rightarrow> v) \<and>
         jersey_number p' =
           (case set_jersey_number u of None \<Rightarrow> jersey_number p | Some v \<Rightarrow> v) \<and>
         player_id p' = i \<and> created_at p' = created_at p \<and>
         read_player i db' = Inr p' \<and>
         filter (\<lambda>q. player_id q \<noteq> i) (players db')
           = filter (\<lambda>q. player_id q \<noteq> i) (players db) \<and>
         users db' = users db"
    apply (rule exI [of _ p'], rule exI [of _ "update_row db p'"])
    using run get others users pid'
    by (simp add: p'_def setattrs_fields setattrs_frame)
next
  assume found: "first_player db i = Some p"
  define p' where "p' = (setattrs (team_only x) p)\<lparr>updated_at := Some now\<rparr>"
  have run: "update_player now i (team_only x) db = (Inr p', update_row db p')"
    using found by (simp add: update_player_def p'_def Let_def)
  show "\<exists>p' db'. update_player now i (team_only x) db = (Inr p', db') \<and>
         team p' = Some x \<and> name p' = name p \<and> position p' = position p \<and>
         age p' = age p \<and> jersey_number p' = jersey_number p"
    apply (rule exI [of _ p'], rule exI [of _ "update_row db p'"])
    using run by (simp add: p'_def setattrs_fields team_only_def)
next
  assume "first_player db i = None"
  then show "update_player now i u db = (Inl (HTTPException 404 ''Player not found''), db)"
    by (simp add: update_player_def)
qed

lemma db_alice_players:
  "players db_alice =
     [\<lparr>name = ''Alice'', position = Some ''Forward'', team = Some ''Reds'', age = Some 30,
       jersey_number = Some 9, player_id = 1, created_at = 1, updated_at = None\<rparr>]"
  by (simp add: db_alice_def create_player_def add_player_def new_player_def alice_def
      empty_store_def Let_def)

theorem update_overwrites_supplied_only_witness:
  "first_player db_alice 1 = Some (hd (players db_alice)) \<and>
   (\<exists>p' db'. update_player 5 1 (team_only ''Blues'') db_alice = (Inr p', db') \<and>
      team p' = Some ''Blues'' \<and> name p' = ''Alice'' \<and> position p' = Some ''Forward'' \<and>
      age p' = Some 30 \<and> jersey_number p' = Some 9) \<and>
   first_player db_alice 2 = None \<and>
   update_player 5 2 (team_only ''Blues'') db_alice
     = (Inl (HTTPException 404 ''Player not found''), db_alice)"
proof -
  have a: "first_player db_alice 1 = Some (hd (players db_alice))"
    by (simp add: first_player_def db_alice_players)
  have b: "first_player db_alice 2 = None"
    by (simp add: first_player_def db_alice_players)
  show ?thesis
    using a b
      update_overwrites_supplied_only [of db_alice 1 "hd (players db_alice)" 5
        "team_only ''Blues''" "''Blues''"]
      update_overwrites_supplied_only [of db_alice 2 "hd (players db_alice)" 5
        "team_only ''Blues''" "''Blues''"]
    by (simp add: db_alice_players)
qed

subsection \<open>Search with the empty string\<close>

lemma like_percent: "like esc ''%'' s"
  by (induction s) simp_all

lemma like_percent_percent: "like esc ''%%'' s"
  using like_percent [of esc s] by simp

lemma ilike_empty_name: "ilike esc (''%'' @ [] @ ''%'') s"
proof -
  have "lower ''%%'' = ''%%''"
    by (simp add: lower_def lower_char_def)
  then show ?thesis
    using like_percent_percent [of esc "lower s"] by (simp add: ilike_def)
qed

text \<open>
  Claim C10, as the code has it. With the empty string as the name, the pattern is
  \<^verbatim>\<open>%%\<close>, which every name matches, whatever the dialect's escape rule: the search
  returns the page that \<open>read_players\<close> returns for the same \<open>skip\<close> and
  \<open>limit\<close>, and fails with 404 exactly when that page is empty, which is when
  \<open>limit\<close> is 0 or the table has no row at the offset \<open>skip\<close>.
\<close>

theorem search_empty_string_is_list:
  "search_players_by_name esc [] skip limit db =
     (if read_players skip limit db = []
      then Inl (HTTPException 404 ''No players found with the given name'')
      else Inr (read_players skip limit db)) \<and>
   (read_players skip limit db = [] \<longleftrightarrow> limit = 0 \<or> length (players db) \<le> skip)"
proof -
  have "filter (\<lambda>p. ilike esc (''%'' @ [] @ ''%'') (name p)) (players db) = players db"
    using ilike_empty_name by (simp del: append.simps)
  then have "search_players_by_name esc [] skip limit db =
     (if read_players skip limit db = []
      then Inl (HTTPException 404 ''No players found with the given name'')
      else Inr (read_players skip limit db))"
    by (simp add: search_players_by_name_def read_players_def Let_def del: append.simps)
  moreover have "read_players skip limit db = [] \<longleftrightarrow> limit = 0 \<or> length (players db) \<le> skip"
    by (simp add: read_players_def take_eq_Nil)
  ultimately show ?thesis
    by (rule conjI)
qed

text \<open>
  The claim as stated fails: with \<open>limit = 0\<close> the search for the empty string is
  answered with 404 although the table has a player at the offset.
\<close>

theorem search_empty_string_limit_zero:
  "drop 0 (players db_alice) \<noteq> [] \<and>
   search_players_by_name False [] 0 0 db_alice
     = Inl (HTTPException 404 ''No players found with the given name'')"
  by (simp add: search_players_by_name_def db_alice_players)

theorem search_empty_string_is_list_witness:
  "search_players_by_name False [] 0 100 db_alice = Inr (players db_alice) \<and>
   search_players_by_name True [] 1 100 db_alice
     = Inl (HTTPException 404 ''No players found with the given name'') \<and>
   search_players_by_name True [] 0 0 db_alice
     = Inl (HTTPException 404 ''No players found with the given name'') \<and>
   read_players 0 0 db_alice = []"
  using search_empty_string_is_list [of False 0 100 db_alice]
    search_empty_string_is_list [of True 1 100 db_alice]
    search_empty_string_is_list [of True 0 0 db_alice]
  by (simp add: read_players_def db_alice_players)

subsection \<open>The import loop\<close>

lemma process_row_name_missing:
  assumes "name_missing r"
  shows "\<exists>e. process_row now r db = (Inl e, db) \<and> status_code e = 400"
  using assms
  by (auto simp: name_missing_def process_row_def player_data_def split: option.splits)

lemma import_rows_append:
  "import_rows now (pre @ rest) created db =
     (case import_rows now pre created db of
        (Inl e, db') \<Rightarrow> (Inl e, db')
      | (Inr c, db') \<Rightarrow> import_rows now rest c db')"
  by (induction pre arbitrary: created db) (auto split: prod.splits sum.splits)

lemma import_rows_stops:
  assumes "name_missing bad"
  shows "\<exists>e. import_rows now (bad # post) created db = (Inl e, db) \<and> status_code e = 400"
  using process_row_name_missing [OF assms, of now db] by auto

lemma import_rows_all_ok:
  assumes "map player_data rs = map Inr pcs"
  shows "import_rows now rs created db =
           (Inr (created @ stored_rows now (next_player_id db) pcs),
            db\<lparr>players := players db @ stored_rows now (next_player_id db) pcs,
               next_player_id := next_player_id db + length pcs\<rparr>)"
  using assms
proof (induction rs arbitrary: pcs created db)
  case Nil
  then show ?case by simp
next
  case (Cons r rs)
  then obtain pc pcs' where pcs: "pcs = pc # pcs'" and r: "player_data r = Inr pc"
    and rest: "map player_data rs = map Inr pcs'"
    by (cases pcs) auto
  show ?case
    using Cons.IH [OF rest] r
    by (simp add: pcs process_row_def add_player_def new_player_def Let_def)
qed

lemma player_data_error:
  assumes "player_data r = Inl e"
  shows "e = HTTPException 400 ''Name field is required'' \<or> e = AttributeError"
  using assms
  by (auto simp: player_data_def opt_str_def opt_int_def
      split: option.splits if_splits sum.splits)

lemma process_row_error:
  assumes "process_row now r db = (Inl e, db')"
  shows "status_code e = 400 \<and> db' = db"
proof (cases "player_data r")
  case (Inl e0)
  then show ?thesis
    using assms player_data_error [OF Inl] by (auto simp: process_row_def)
next
  case (Inr pc)
  then show ?thesis
    using assms by (simp add: process_row_def add_player_def Let_def)
qed

lemma import_rows_error_status:
  assumes "import_rows now rs created db = (Inl e, db')"
  shows "status_code e = 400"
  using assms
proof (induction rs arbitrary: created db)
  case Nil
  then show ?case by simp
next
  case (Cons r rs)
  show ?case
  proof (cases "process_row now r db")
    case (Pair res db1)
    show ?thesis
    proof (cases res)
      case (Inl e1)
      then show ?thesis
        using Cons.prems Pair process_row_error [of now r db e1 db1] by simp
    next
      case (Inr p)
      then show ?thesis
        using Cons.prems Pair Cons.IH [of "created @ [p]" db1] by simp
    qed
  qed
qed

lemma import_rows_cut:
  assumes "name_missing bad"
  shows "\<exists>e. import_rows now (pre @ bad # post) created db
              = (Inl e, snd (import_rows now pre created db)) \<and> status_code e = 400"
proof (cases "import_rows now pre created db")
  case (Pair res db')
  show ?thesis
  proof (cases res)
    case (Inl e)
    then show ?thesis
      using Pair import_rows_error_status [of now pre created db e db']
      by (simp add: import_rows_append)
  next
    case (Inr c)
    then show ?thesis
      using Pair import_rows_stops [OF assms, of now post c db']
      by (simp add: import_rows_append)
  qed
qed

lemma stored_rows_ids: "map player_id (stored_rows now n pcs) = [n ..< n + length pcs]"
  by (induction pcs arbitrary: n) (auto simp: upt_rec)

lemma find_distinct_key:
  assumes "distinct (map f xs)" and "p \<in> set xs"
  shows "find (\<lambda>q. f q = f p) xs = Some p"
  using assms by (induction xs) (auto simp: image_iff)

lemma find_app:
  "find P (xs @ ys) = (case find P xs of None \<Rightarrow> find P ys | Some x \<Rightarrow> Some x)"
  by (induction xs) auto

lemma first_player_appended:
  assumes "ids_ok db" and "p \<in> set (stored_rows now (next_player_id db) pcs)"
    and "players db' = players db @ stored_rows now (next_player_id db) pcs"
  shows "first_player db' (player_id p) = Some p"
proof -
  let ?new = "stored_rows now (next_player_id db) pcs"
  have "player_id p \<in> set (map player_id ?new)"
    using assms(2) by simp
  then have ge: "next_player_id db \<le> player_id p"
    by (simp add: stored_rows_ids)
  have old: "find (\<lambda>q. player_id q = player_id p) (players db) = None"
    using assms(1) ge by (auto simp: ids_ok_def find_None_iff list_all_iff)
  have "distinct (map player_id ?new)"
    by (simp add: stored_rows_ids)
  then have "find (\<lambda>q. player_id q = player_id p) ?new = Some p"
    using assms(2) by (rule find_distinct_key)
  then show ?thesis
    using old by (simp add: first_player_def assms(3) find_app)
qed

text \<open>
  Claim C2. Let the file carry the extension, and let its rows be \<open>pre\<close>, then a row
  \<open>bad\<close> whose name field is absent, \<^verbatim>\<open>None\<close> or blank, then \<open>post\<close>. The import
  fails with a 400, and the store it leaves is the store that the rows \<open>pre\<close> alone
  leave: \<open>bad\<close> and the rows after it insert nothing. When every row of \<open>pre\<close>
  yields a player, the store holds, after the players it held before, exactly the
  players of \<open>pre\<close>, and (ids being a primary key) \<open>read_player\<close> returns each of
  them.
\<close>

theorem import_aborts_on_missing_name:
  assumes "endswith (filename f) ''.csv''"
    and "DictReader (records f) = pre @ bad # post"
    and "name_missing bad"
  shows "(\<exists>e. fst (upload_players_csv now f db) = Inl (FileError e) \<and> status_code e = 400) \<and>
         snd (upload_players_csv now f db) = snd (import_rows now pre [] db) \<and>
         (map player_data pre = map Inr pcs \<longrightarrow>
            players (snd (upload_players_csv now f db))
              = players db @ stored_rows now (next_player_id db) pcs \<and>
            users (snd (upload_players_csv now f db)) = users db \<and>
            (ids_ok db \<longrightarrow>
               list_all (\<lambda>p. read_player (player_id p) (snd (upload_players_csv now f db)) = Inr p)
                 (stored_rows now (next_player_id db) pcs)))"
proof -
  obtain e where cut: "import_rows now (pre @ bad # post) [] db
                         = (Inl e, snd (import_rows now pre [] db))"
    and st: "status_code e = 400"
    using import_rows_cut [OF assms(3), of now pre post "[]" db] by blast
  have up: "upload_players_csv now f db = (Inl (FileError e), snd (import_rows now pre [] db))"
    using assms(1,2) cut by (simp add: upload_players_csv_def)
  have ok: "players (snd (import_rows now pre [] db))
              = players db @ stored_rows now (next_player_id db) pcs \<and>
            users (snd (import_rows now pre [] db)) = users db"
    if "map player_data pre = map Inr pcs"
    using import_rows_all_ok [OF that, of now "[]" db] by simp
  have q: "list_all (\<lambda>p. read_player (player_id p) (snd (import_rows now pre [] db)) = Inr p)
             (stored_rows now (next_player_id db) pcs)"
    if "map player_data pre = map Inr pcs" and "ids_ok db"
    using first_player_appended [OF that(2) _ conjunct1 [OF ok [OF that(1)]]]
    by (simp add: list_all_iff read_player_def)
  show ?thesis
    using up st ok q by simp
qed

lemma alice_guard_rows:
  "DictReader (records alice_guard_file)
     = [dict_row [''name'', ''position''] [''Alice'', ''Forward'']]
       @ dict_row [''name'', ''position''] ['''', ''Guard''] # []"
  by (simp add: alice_guard_file_def)

lemma guard_row_name_missing:
  "name_missing (dict_row [''name'', ''position''] ['''', ''Guard''])"
  by (simp add: name_missing_def dict_row_def strip_def)

lemma alice_row_player_data:
  "map player_data [dict_row [''name'', ''position''] [''Alice'', ''Forward'']]
   = map Inr [\<lparr>name = ''Alice'', position = Some ''Forward'', team = None,
               age = None, jersey_number = None\<rparr>]"
  by (simp add: player_data_def dict_row_def strip_def opt_str_def opt_int_def is_space_def)

lemma ids_ok_empty_store: "ids_ok empty_store"
  by (simp add: ids_ok_def empty_store_def)

theorem import_aborts_on_missing_name_witness:
  "endswith (filename alice_guard_file) ''.csv'' \<and>
   name_missing (dict_row [''name'', ''position''] ['''', ''Guard'']) \<and>
   ids_ok empty_store \<and>
   (\<exists>e. fst (upload_players_csv 7 alice_guard_file empty_store) = Inl (FileError e) \<and>
        status_code e = 400) \<and>
   players (snd (upload_players_csv 7 alice_guard_file empty_store))
     = [\<lparr>name = ''Alice'', position = Some ''Forward'', team = None, age = None,
         jersey_number = None, player_id = 1, created_at = 7, updated_at = None\<rparr>] \<and>
   read_player 1 (snd (upload_players_csv 7 alice_guard_file empty_store))
     = Inr \<lparr>name = ''Alice'', position = Some ''Forward'', team = None, age = None,
            jersey_number = None, player_id = 1, created_at = 7, updated_at = None\<rparr>"
proof -
  have ext: "endswith (filename alice_guard_file) ''.csv''"
    by (simp add: alice_guard_file_def endswith_def)
  note inst = import_aborts_on_missing_name
    [OF ext alice_guard_rows guard_row_name_missing, of 7 empty_store
      "[\<lparr>name = ''Alice'', position = Some ''Forward'', team = None,
         age = None, jersey_number = None\<rparr>]"]
  note fails = inst [THEN conjunct1]
  note kept = inst [THEN conjunct2, THEN conjunct2, THEN mp, OF alice_row_player_data]
  note found = kept [THEN conjunct2, THEN conjunct2, THEN mp, OF ids_ok_empty_store]
  have stored: "players (snd (upload_players_csv 7 alice_guard_file empty_store))
     = [\<lparr>name = ''Alice'', position = Some ''Forward'', team = None, age = None,
         jersey_number = None, player_id = 1, created_at = 7, updated_at = None\<rparr>]"
    using kept [THEN conjunct1] by (simp add: empty_store_def)
  have queried: "read_player 1 (snd (upload_players_csv 7 alice_guard_file empty_store))
     = Inr \<lparr>name = ''Alice'', position = Some ''Forward'', team = None, age = None,
            jersey_number = None, player_id = 1, created_at = 7, updated_at = None\<rparr>"
    using found by (simp add: empty_store_def)
  show ?thesis
    using ext guard_row_name_missing ids_ok_empty_store fails stored queried
    by blast
qed

subsection \<open>The file name and the rows\<close>

lemma map_of_rev_distinct:
  assumes "distinct (map fst xs)"
  shows "map_of (rev xs) = map_of xs"
  using assms
proof (induction xs)
  case Nil
  then show ?case by simp
next
  case (Cons a xs)
  have "fst a \<notin> dom (map_of xs)"
    using Cons.prems by (simp add: dom_map_of_conv_image_fst)
  then have none: "map_of xs (fst a) = None"
    by blast
  show ?case
  proof
    fix k
    show "map_of (rev (a # xs)) k = map_of (a # xs) k"
      using Cons none by (cases a) (auto simp: map_add_def split: option.splits)
  qed
qed

lemma zip_cut: "zip xs ys = zip xs (take (length xs) ys)"
proof (induction xs arbitrary: ys)
  case Nil
  then show ?case by simp
next
  case (Cons a xs)
  then show ?case by (cases ys) auto
qed

lemma dict_row_cell:
  assumes "distinct h" and "j < length h" and "j < length rec"
  shows "dict_row h rec (h ! j) = Some (Some (rec ! j))"
proof -
  let ?cells = "map Some rec @ replicate (length h - length rec) None"
  have len: "length (take (length h) ?cells) = length h"
    by simp
  have d: "distinct (map fst (zip h (take (length h) ?cells)))"
    using assms(1) len by (simp add: map_fst_zip)
  have "dict_row h rec = map_of (zip h (take (length h) ?cells))"
    unfolding dict_row_def using map_of_rev_distinct [OF d] zip_cut [of h ?cells] by simp
  moreover have "map_of (zip h (take (length h) ?cells)) (h ! j) = Some (take (length h) ?cells ! j)"
    using assms(1,2) len by (intro map_of_zip_nth) simp_all
  moreover have "take (length h) ?cells ! j = Some (rec ! j)"
    using assms(2,3) by (simp add: nth_append)
  ultimately show ?thesis
    by simp
qed

lemma dict_row_short:
  assumes "distinct h" and "j < length h" and "length rec \<le> j"
  shows "dict_row h rec (h ! j) = Some None"
proof -
  let ?cells = "map Some rec @ replicate (length h - length rec) None"
  have len: "length (take (length h) ?cells) = length h"
    by simp
  have d: "distinct (map fst (zip h (take (length h) ?cells)))"
    using assms(1) len by (simp add: map_fst_zip)
  have "dict_row h rec = map_of (zip h (take (length h) ?cells))"
    unfolding dict_row_def using map_of_rev_distinct [OF d] zip_cut [of h ?cells] by simp
  moreover have "map_of (zip h (take (length h) ?cells)) (h ! j) = Some (take (length h) ?cells ! j)"
    using assms(1,2) len by (intro map_of_zip_nth) simp_all
  moreover have "take (length h) ?cells ! j = None"
    using assms(2,3) by (simp add: nth_append)
  ultimately show ?thesis
    by simp
qed

lemma dict_row_no_column:
  assumes "k \<notin> set h"
  shows "dict_row h rec k = None"
proof -
  have "k \<notin> fst ` set (rev (zip h (map Some rec @ replicate (length h - length rec) None)))"
    using assms by (auto dest: set_zip_leftD)
  then show ?thesis
    unfolding dict_row_def by (simp only: map_of_eq_None_iff simp_thms)
qed


text \<open>
  Claim C8. A file whose declared name does not end in \<^verbatim>\<open>.csv\<close> is rejected with
  the 400 of a bad file type before anything is read, and the store is left as it was.
  Otherwise the result is that of the loop over the rows of \<^verbatim>\<open>csv.DictReader\<close>: no
  row for a body without records, and for a body with the header \<open>fields\<close> one row per
  record that is not blank. A row is keyed by the header: under distinct field names,
  the field name at position \<open>j\<close> maps to the cell at position \<open>j\<close> of the record,
  and a name that is no field name maps to nothing.
\<close>

theorem upload_checks_extension:
  "(\<not> endswith (filename f) ''.csv'' \<longrightarrow>
      upload_players_csv now f db
        = (Inl (HTTPException 400 ''Only CSV files are allowed''), db)) \<and>
   (endswith (filename f) ''.csv'' \<longrightarrow>
      (records f = [] \<longrightarrow> upload_players_csv now f db = (Inr [], db)) \<and>
      (\<forall>fields recs. records f = fields # recs \<longrightarrow>
         upload_players_csv now f db =
           (case import_rows now (map (dict_row fields) (filter (\<lambda>r. r \<noteq> []) recs)) [] db of
              (Inl e, db') \<Rightarrow> (Inl (FileError e), db')
            | (Inr created, db') \<Rightarrow> (Inr created, db')))) \<and>
   (distinct h \<and> j < length h \<and> j < length rec \<longrightarrow>
      dict_row h rec (h ! j) = Some (Some (rec ! j))) \<and>
   (k \<notin> set h \<longrightarrow> dict_row h rec k = None)"
proof (intro conjI impI allI)
  assume "\<not> endswith (filename f) ''.csv''"
  then show "upload_players_csv now f db
               = (Inl (HTTPException 400 ''Only CSV files are allowed''), db)"
    by (simp add: upload_players_csv_def)
next
  assume "endswith (filename f) ''.csv''" and "records f = []"
  then show "upload_players_csv now f db = (Inr [], db)"
    by (simp add: upload_players_csv_def)
next
  fix fields recs
  assume "endswith (filename f) ''.csv''" and "records f = fields # recs"
  then show "upload_players_csv now f db =
           (case import_rows now (map (dict_row fields) (filter (\<lambda>r. r \<noteq> []) recs)) [] db of
              (Inl e, db') \<Rightarrow> (Inl (FileError e), db')
            | (Inr created, db') \<Rightarrow> (Inr created, db'))"
    by (simp add: upload_players_csv_def)
next
  assume "distinct h \<and> j < length h \<and> j < length rec"
  then show "dict_row h rec (h ! j) = Some (Some (rec ! j))"
    by (simp add: dict_row_cell)
next
  assume "k \<notin> set h"
  then show "dict_row h rec k = None"
    by (rule dict_row_no_column)
qed

theorem upload_checks_extension_witness:
  "\<not> endswith (filename text_file) ''.csv'' \<and>
   upload_players_csv 7 text_file empty_store
     = (Inl (HTTPException 400 ''Only CSV files are allowed''), empty_store) \<and>
   endswith (filename bob_age_file) ''.csv'' \<and>
   upload_players_csv 7 bob_age_file empty_store =
     (case import_rows 7 [dict_row [''name'', ''age''] [''Bob'', ''notanumber'']] []
             empty_store of
        (Inl e, db') \<Rightarrow> (Inl (FileError e), db')
      | (Inr created, db') \<Rightarrow> (Inr created, db')) \<and>
   dict_row [''name'', ''age''] [''Bob'', ''notanumber''] ''age'' = Some (Some ''notanumber'') \<and>
   dict_row [''name'', ''age''] [''Bob'', ''notanumber''] ''team'' = None"
proof -
  have no: "\<not> endswith (filename text_file) ''.csv''"
    by (simp add: text_file_def endswith_def)
  have yes: "endswith (filename bob_age_file) ''.csv''"
    by (simp add: bob_age_file_def endswith_def)
  have recs: "records bob_age_file = [''name'', ''age''] # [[''Bob'', ''notanumber'']]"
    by (simp add: bob_age_file_def)
  note t1 = upload_checks_extension
    [of text_file 7 empty_store "[''name'', ''age'']" 1 "[''Bob'', ''notanumber'']" "''team''"]
  note t2 = upload_checks_extension
    [of bob_age_file 7 empty_store "[''name'', ''age'']" 1 "[''Bob'', ''notanumber'']" "''team''"]
  have a: "upload_players_csv 7 text_file empty_store
     = (Inl (HTTPException 400 ''Only CSV files are allowed''), empty_store)"
    using t1 no by blast
  have b: "upload_players_csv 7 bob_age_file empty_store =
     (case import_rows 7 [dict_row [''name'', ''age''] [''Bob'', ''notanumber'']] []
             empty_store of
        (Inl e, db') \<Rightarrow> (Inl (FileError e), db')
      | (Inr created, db') \<Rightarrow> (Inr created, db'))"
    using t2 [THEN conjunct2, THEN conjunct1, THEN mp, OF yes, THEN conjunct2,
        THEN spec, THEN spec, THEN mp, OF recs]
    by simp
  have c: "dict_row [''name'', ''age''] [''Bob'', ''notanumber''] ''age''
             = Some (Some ''notanumber'')"
    using t1 by simp
  have d: "dict_row [''name'', ''age''] [''Bob'', ''notanumber''] ''team'' = None"
    using t1 by simp
  show ?thesis
    using no yes a b c d by blast
qed

subsection \<open>Signup\<close>

lemma get_user_None_iff: "get_user db n = None \<longleftrightarrow> n \<notin> set (map username (users db))"
  by (auto simp: get_user_def find_None_iff)

lemma signup_taken:
  assumes "new_username req \<in> set (map username (users db))"
  shows "signup h now req db = (Inl (HTTPException 400 ''Username already registered''), db)"
proof -
  have "get_user db (new_username req) \<noteq> None"
    using assms by (simp add: get_user_None_iff)
  then show ?thesis
    by (auto simp: signup_def)
qed

lemma signup_free:
  assumes "new_username req \<notin> set (map username (users db))"
  shows "signup h now req db =
           (if new_email req \<in> set (map email (users db)) then (Inl IntegrityError, db)
            else (Inr \<lparr>user_id = next_user_id db, email = new_email req,
                       username = new_username req,
                       hashed_password = h (new_password req), is_active = True,
                       user_created_at = now\<rparr>,
                  db\<lparr>users := users db @
                         [\<lparr>user_id = next_user_id db, email = new_email req,
                           username = new_username req,
                           hashed_password = h (new_password req), is_active = True,
                           user_created_at = now\<rparr>],
                     next_user_id := Suc (next_user_id db)\<rparr>))"
proof -
  have "get_user db (new_username req) = None"
    using assms by (simp add: get_user_None_iff)
  then show ?thesis
    using assms by (simp add: signup_def add_user_def Let_def)
qed

lemma db_ann_users:
  "users db_ann = [\<lparr>user_id = 1, email = ''ann@club.org'', username = ''ann'',
                    hashed_password = ''#pw1'', is_active = True, user_created_at = 3\<rparr>]"
  by (simp add: db_ann_def signup_def get_user_def add_user_def ann_def toy_hash_def
      empty_store_def Let_def)

text \<open>
  Claim C4, as the code has it. \<open>signup\<close> fails with the 400 of a duplicate username
  exactly when a stored user has the requested username, and then the store is left as
  it was. Otherwise, when no stored user has the requested email either, it stores one
  new user, who has the hash of the password, \<open>is_active = True\<close>, and the next id.
\<close>

theorem signup_duplicate_username:
  "(fst (signup h now req db) = Inl (HTTPException 400 ''Username already registered'')
      \<longleftrightarrow> new_username req \<in> set (map username (users db))) \<and>
   (new_username req \<in> set (map username (users db)) \<longrightarrow>
      snd (signup h now req db) = db) \<and>
   (new_username req \<notin> set (map username (users db)) \<and>
    new_email req \<notin> set (map email (users db)) \<longrightarrow>
      (\<exists>u. signup h now req db
             = (Inr u, db\<lparr>users := users db @ [u], next_user_id := Suc (next_user_id db)\<rparr>) \<and>
           email u = new_email req \<and> username u = new_username req \<and>
           hashed_password u = h (new_password req) \<and> is_active u \<and>
           user_id u = next_user_id db))"
proof (cases "new_username req \<in> set (map username (users db))")
  case True
  then show ?thesis
    using signup_taken [OF True, of h now] by simp
next
  case False
  then show ?thesis
    using signup_free [OF False, of h now] by simp
qed

text \<open>
  The claim as the specification states it fails: a request with a new username and the
  email of a stored user is not rejected as a duplicate username, and no user is stored.
\<close>

theorem signup_new_username_not_stored:
  "new_username annie \<notin> set (map username (users db_ann)) \<and>
   signup toy_hash 4 annie db_ann = (Inl IntegrityError, db_ann)"
  by (simp add: signup_def get_user_def add_user_def annie_def db_ann_users)

theorem signup_duplicate_username_witness:
  "new_username ann_again \<in> set (map username (users db_ann)) \<and>
   fst (signup toy_hash 4 ann_again db_ann)
     = Inl (HTTPException 400 ''Username already registered'') \<and>
   snd (signup toy_hash 4 ann_again db_ann) = db_ann \<and>
   new_username cleo \<notin> set (map username (users db_ann)) \<and>
   new_email cleo \<notin> set (map email (users db_ann)) \<and>
   (\<exists>u. signup toy_hash 4 cleo db_ann
          = (Inr u, db_ann\<lparr>users := users db_ann @ [u],
                         next_user_id := Suc (next_user_id db_ann)\<rparr>) \<and>
        hashed_password u = ''#pw5'' \<and> is_active u)"
proof -
  have a: "new_username ann_again \<in> set (map username (users db_ann))"
    by (simp add: ann_again_def db_ann_users)
  have b: "new_username cleo \<notin> set (map username (users db_ann))"
    by (simp add: cleo_def db_ann_users)
  have c: "new_email cleo \<notin> set (map email (users db_ann))"
    by (simp add: cleo_def db_ann_users)
  have pw: "toy_hash (new_password cleo) = ''#pw5''"
    by (simp add: toy_hash_def cleo_def)
  show ?thesis
    using a b c signup_duplicate_username [of toy_hash 4 ann_again db_ann]
      signup_duplicate_username [of toy_hash 4 cleo db_ann]
    by (auto simp: pw)
qed

text \<open>
  Claim C9, as the code has it. The check of \<open>signup\<close> itself looks at the username
  only: a request with a username that no stored user has and the email of a stored
  user passes it, so the request is not answered with the 400 of a duplicate username.
  The commit of the new row then fails on the unique email, and the store is left as
  it was: the users with that email are those it held before.
\<close>

theorem signup_checks_username_only:
  "new_username req \<notin> set (map username (users db)) \<and>
   new_email req \<in> set (map email (users db)) \<longrightarrow>
     get_user db (new_username req) = None \<and>
     signup h now req db = (Inl IntegrityError, db) \<and>
     filter (\<lambda>u. email u = new_email req) (users (snd (signup h now req db)))
       = filter (\<lambda>u. email u = new_email req) (users db)"
proof
  assume a: "new_username req \<notin> set (map username (users db)) \<and>
             new_email req \<in> set (map email (users db))"
  then have "signup h now req db = (Inl IntegrityError, db)"
    using signup_free [of req db h now] by simp
  then show "get_user db (new_username req) = None \<and>
     signup h now req db = (Inl IntegrityError, db) \<and>
     filter (\<lambda>u. email u = new_email req) (users (snd (signup h now req db)))
       = filter (\<lambda>u. email u = new_email req) (users db)"
    using a by (simp add: get_user_None_iff)
qed

text \<open>
  The claim as stated fails: after the signup of \<open>bea\<close> with the email of the stored
  user \<open>ann\<close> the store does not hold two users with that email.
\<close>

theorem signup_same_email_one_user:
  "\<not> (\<exists>u db'. signup toy_hash 4 bea db_ann = (Inr u, db') \<and>
         length (filter (\<lambda>v. email v = ''ann@club.org'') (users db')) = 2)"
  by (simp add: signup_def get_user_def add_user_def bea_def db_ann_users)

theorem signup_checks_username_only_witness:
  "new_username bea \<notin> set (map username (users db_ann)) \<and>
   new_email bea \<in> set (map email (users db_ann)) \<and>
   get_user db_ann (new_username bea) = None \<and>
   signup toy_hash 4 bea db_ann = (Inl IntegrityError, db_ann) \<and>
   length (filter (\<lambda>u. email u = new_email bea) (users (snd (signup toy_hash 4 bea db_ann)))) = 1"
proof -
  have a: "new_username bea \<notin> set (map username (users db_ann))"
    by (simp add: bea_def db_ann_users)
  have b: "new_email bea \<in> set (map email (users db_ann))"
    by (simp add: bea_def db_ann_users)
  have c: "length (filter (\<lambda>u. email u = new_email bea) (users db_ann)) = 1"
    by (simp add: bea_def db_ann_users)
  show ?thesis
    using a b c signup_checks_username_only [of bea db_ann toy_hash 4]
    by simp
qed

subsection \<open>Blank names\<close>

lemma dropWhile_rev_dropWhile:
  "dropWhile P (rev (dropWhile P (rev (dropWhile P s)))) = rev (dropWhile P (rev (dropWhile P s)))"
proof -
  let ?a = "dropWhile P s"
  let ?b = "dropWhile P (rev ?a)"
  show "dropWhile P (rev ?b) = rev ?b"
  proof (cases "?b = []")
    case True
    show ?thesis
      unfolding True by simp
  next
    case False
    have a: "?a = rev ?b @ rev (takeWhile P (rev ?a))"
      by (metis rev_append rev_rev_ident takeWhile_dropWhile_id)
    have "?a \<noteq> []"
    proof
      assume e: "?a = []"
      have "?b = []"
        unfolding e by simp
      with False show False
        by (rule notE)
    qed
    then have "\<not> P (hd ?a)"
      by (rule hd_dropWhile)
    moreover have "hd ?a = hd (rev ?b)"
      using a False by (metis hd_append2 rev_is_Nil_conv)
    ultimately have "\<not> P (hd (rev ?b))"
      by simp
    then show ?thesis
      using False by (cases "rev ?b") auto
  qed
qed

lemma strip_strip: "strip (strip s) = strip s"
  unfolding strip_def by (simp add: dropWhile_rev_dropWhile dropWhile_idem)

lemma player_data_name:
  assumes "player_data r = Inr pc"
  shows "strip (name pc) \<noteq> []"
  using assms
  by (auto simp: player_data_def strip_strip split: option.splits if_splits sum.splits)

lemma process_row_names_ok:
  assumes "names_ok db"
  shows "names_ok (snd (process_row now r db))"
proof (cases "player_data r")
  case (Inl e)
  then show ?thesis
    using assms by (simp add: process_row_def)
next
  case (Inr pc)
  then show ?thesis
    using assms player_data_name [OF Inr]
    by (simp add: process_row_def add_player_def new_player_def names_ok_def Let_def)
qed

lemma import_rows_names_ok:
  assumes "names_ok db"
  shows "names_ok (snd (import_rows now rs created db))"
  using assms
proof (induction rs arbitrary: created db)
  case Nil
  then show ?case by simp
next
  case (Cons r rs)
  show ?case
  proof (cases "process_row now r db")
    case (Pair res db1)
    have ok1: "names_ok db1"
      using process_row_names_ok [OF Cons.prems, of now r] Pair by simp
    show ?thesis
    proof (cases res)
      case (Inl e)
      then show ?thesis using Pair ok1 by simp
    next
      case (Inr p)
      then show ?thesis
        using Pair Cons.IH [OF ok1, of "created @ [p]"] by simp
    qed
  qed
qed

lemma upload_names_ok:
  assumes "names_ok db"
  shows "names_ok (snd (upload_players_csv now f db))"
proof (cases "import_rows now (DictReader (records f)) [] db")
  case (Pair res db')
  then have "names_ok db'"
    using import_rows_names_ok [OF assms, of now "DictReader (records f)" "[]"] by simp
  then show ?thesis
    using assms Pair by (cases res) (simp_all add: upload_players_csv_def)
qed

lemma create_player_names_ok:
  assumes "names_ok db" and "strip (name pc) \<noteq> []"
  shows "names_ok (snd (create_player now pc db))"
  using assms
  by (simp add: create_player_def add_player_def new_player_def names_ok_def Let_def)

text \<open>
  Claim C1. The CSV import keeps the invariant (\<open>upload_names_ok\<close>), and so does
  \<open>create_player\<close> for a name that is not blank. But \<open>create_player\<close> and
  \<open>update_player\<close> store the name they are given without looking at it: from the
  empty store, the creation of a player whose name is two spaces gives a store that
  holds a player with a blank name, and so does setting the name of a stored player to
  the empty string.
\<close>

theorem blank_name_stored:
  "names_ok empty_store \<and>
   \<not> names_ok (snd (create_player 1 blank_player empty_store)) \<and>
   map name (players (snd (create_player 1 blank_player empty_store))) = [''  ''] \<and>
   names_ok db_alice \<and>
   \<not> names_ok (snd (update_player 2 1 (name_only []) db_alice)) \<and>
   map name (players (snd (update_player 2 1 (name_only []) db_alice))) = [[]]"
  by (simp add: names_ok_def create_player_def add_player_def new_player_def
      blank_player_def empty_store_def Let_def strip_def is_space_def
      update_player_def first_player_def update_row_def setattrs_def name_only_def
      db_alice_players)

subsection \<open>Integer fields that do not parse\<close>

lemma opt_str_value:
  assumes "r k \<noteq> Some None"
  shows "\<exists>v. opt_str r k = Inr v"
  using assms by (auto simp: opt_str_def split: option.splits)

lemma opt_int_value:
  assumes "r k \<noteq> Some None"
  shows "opt_int r k =
           Inr (case r k of Some (Some v) \<Rightarrow> if strip v \<noteq> [] then py_int v else None
                | _ \<Rightarrow> None)"
  using assms by (auto simp: opt_int_def split: option.splits)

text \<open>
  A row with a name that is not blank and with no \<^verbatim>\<open>None\<close> among its optional fields
  always yields a player: an integer field is the parsed value, and unset when the
  cell is blank or does not parse.
\<close>

lemma player_data_complete_row:
  assumes "r ''name'' = Some (Some nm)" and "strip nm \<noteq> []"
    and "r ''position'' \<noteq> Some None" and "r ''team'' \<noteq> Some None"
    and "r ''age'' \<noteq> Some None" and "r ''jersey_number'' \<noteq> Some None"
  shows "\<exists>pc. player_data r = Inr pc \<and> name pc = strip nm \<and>
           age pc = (case r ''age'' of
                       Some (Some v) \<Rightarrow> if strip v \<noteq> [] then py_int v else None
                     | _ \<Rightarrow> None) \<and>
           jersey_number pc = (case r ''jersey_number'' of
                       Some (Some v) \<Rightarrow> if strip v \<noteq> [] then py_int v else None
                     | _ \<Rightarrow> None)"
proof -
  obtain pos where pos: "opt_str r ''position'' = Inr pos"
    using opt_str_value [of r "''position''"] assms(3) by blast
  obtain tm where tm: "opt_str r ''team'' = Inr tm"
    using opt_str_value [of r "''team''"] assms(4) by blast
  show ?thesis
    using assms(1,2,5,6) pos tm opt_int_value [of r "''age''"]
      opt_int_value [of r "''jersey_number''"]
    by (simp add: player_data_def)
qed

lemma process_row_unparsable_age:
  assumes "r ''name'' = Some (Some nm)" and "strip nm \<noteq> []"
    and "r ''position'' \<noteq> Some None" and "r ''team'' \<noteq> Some None"
    and "r ''age'' = Some (Some v)" and "py_int v = None"
    and "r ''jersey_number'' \<noteq> Some None"
  shows "\<exists>p. process_row now r db
               = (Inr p, db\<lparr>players := players db @ [p],
                            next_player_id := Suc (next_player_id db)\<rparr>) \<and>
             name p = strip nm \<and> age p = None"
proof -
  have "r ''age'' \<noteq> Some None"
    using assms(5) by simp
  then obtain pc where "player_data r = Inr pc" and "name pc = strip nm" and "age pc = None"
    using player_data_complete_row [OF assms(1,2,3,4) _ assms(7)] assms(5,6) by auto
  then show ?thesis
    by (simp add: process_row_def add_player_def new_player_def Let_def)
qed

text \<open>
  Claim C5. The example of the specification holds: the import of the header
  \<^verbatim>\<open>name,age\<close> and the record \<^verbatim>\<open>Bob,notanumber\<close> stores Bob with no age. With the
  header \<^verbatim>\<open>name,age,team\<close> the same record has a name and an age that does not parse,
  but \<^verbatim>\<open>csv.DictReader\<close> gives the missing team the value \<^verbatim>\<open>None\<close>, on which
  \<^verbatim>\<open>strip\<close> raises: the import fails on that row with a 400 and stores nothing.
\<close>

theorem short_row_aborts_import:
  "py_int ''notanumber'' = None \<and>
   upload_players_csv 7 bob_age_file empty_store
     = (Inr [\<lparr>name = ''Bob'', position = None, team = None, age = None,
               jersey_number = None, player_id = 1, created_at = 7, updated_at = None\<rparr>],
        empty_store\<lparr>players :=
                      [\<lparr>name = ''Bob'', position = None, team = None, age = None,
                        jersey_number = None, player_id = 1, created_at = 7,
                        updated_at = None\<rparr>],
                    next_player_id := 2\<rparr>) \<and>
   dict_row [''name'', ''age'', ''team''] [''Bob'', ''notanumber''] ''name'' = Some (Some ''Bob'') \<and>
   dict_row [''name'', ''age'', ''team''] [''Bob'', ''notanumber''] ''age''
     = Some (Some ''notanumber'') \<and>
   dict_row [''name'', ''age'', ''team''] [''Bob'', ''notanumber''] ''team'' = Some None \<and>
   upload_players_csv 7 bob_short_file empty_store
     = (Inl (FileError (RowError AttributeError)), empty_store)"
  by (simp add: upload_players_csv_def endswith_def bob_age_file_def bob_short_file_def
      dict_row_def process_row_def player_data_def opt_str_def opt_int_def py_int_def
      strip_def is_space_def int_strip_def is_int_space_def max_str_digits_def
      is_digit_def add_player_def new_player_def empty_store_def
      Let_def)

subsection \<open>Search by name\<close>

lemma lower_char_plain:
  assumes "c \<noteq> CHR ''%''" and "c \<noteq> CHR ''_''" and "c \<noteq> CHR 0x5C"
  shows "lower_char c \<noteq> CHR ''%'' \<and> lower_char c \<noteq> CHR ''_'' \<and> lower_char c \<noteq> CHR 0x5C"
proof (cases "65 \<le> (of_char c :: nat) \<and> (of_char c :: nat) \<le> 90")
  case False
  then show ?thesis
    using assms by (auto simp: lower_char_def Let_def)
next
  case True
  then have "char_of ((of_char c :: nat) + 32) \<noteq> CHR ''%''"
    "char_of ((of_char c :: nat) + 32) \<noteq> CHR ''_''"
    "char_of ((of_char c :: nat) + 32) \<noteq> CHR 0x5C"
    by (auto simp: char_of_eq_iff take_bit_eq_mod)
  then show ?thesis
    using True by (simp add: lower_char_def Let_def)
qed

lemma plain_lower: "plain s \<Longrightarrow> plain (lower s)"
  by (induction s) (auto simp: plain_def lower_def lower_char_plain)

lemma like_plain_prefix:
  assumes "plain p"
  shows "like esc (p @ ''%'') s \<longleftrightarrow> take (length p) s = p"
  using assms
proof (induction p arbitrary: s)
  case Nil
  then show ?case
    using like_percent [of esc s] by simp
next
  case (Cons c p)
  then have c: "c \<noteq> CHR ''%''" "c \<noteq> CHR ''_''" "c \<noteq> CHR 0x5C" and p: "plain p"
    by (simp_all add: plain_def)
  show ?case
  proof (cases s)
    case Nil
    then show ?thesis
      using c by simp
  next
    case (Cons x xs)
    then show ?thesis
      using c Cons.IH [OF p, of xs] by auto
  qed
qed

lemma like_percent_some_offset:
  "like esc (CHR ''%'' # q) s \<longleftrightarrow> (\<exists>i\<le>length s. like esc q (drop i s))"
proof (induction s)
  case Nil
  then show ?case by simp
next
  case (Cons x xs)
  have "(\<exists>i\<le>length (x # xs). like esc q (drop i (x # xs)))
        \<longleftrightarrow> like esc q (x # xs) \<or> (\<exists>j\<le>length xs. like esc q (drop j xs))"
  proof
    assume "\<exists>i\<le>length (x # xs). like esc q (drop i (x # xs))"
    then obtain i where i: "i \<le> length (x # xs)" "like esc q (drop i (x # xs))"
      by blast
    then show "like esc q (x # xs) \<or> (\<exists>j\<le>length xs. like esc q (drop j xs))"
      by (cases i) auto
  next
    assume "like esc q (x # xs) \<or> (\<exists>j\<le>length xs. like esc q (drop j xs))"
    then show "\<exists>i\<le>length (x # xs). like esc q (drop i (x # xs))"
    proof
      assume "like esc q (x # xs)"
      then show ?thesis
        by (intro exI [of _ 0]) simp
    next
      assume "\<exists>j\<le>length xs. like esc q (drop j xs)"
      then obtain j where "j \<le> length xs" "like esc q (drop j xs)"
        by blast
      then show ?thesis
        by (intro exI [of _ "Suc j"]) simp
    qed
  qed
  then show ?case
    using Cons by simp
qed

lemma contains_iff:
  "contains sub s \<longleftrightarrow> (\<exists>i\<le>length s. take (length sub) (drop i s) = sub)"
  by (auto simp: contains_def list_ex_iff less_Suc_eq_le simp del: upt_Suc)

text \<open>
  For a search string without \<^verbatim>\<open>%\<close>, \<^verbatim>\<open>_\<close> and backslash, the filter of the search is
  the containment of the specification, under either escape rule.
\<close>

lemma ilike_plain:
  assumes "plain nm"
  shows "ilike esc (''%'' @ nm @ ''%'') s \<longleftrightarrow> contains_ci nm s"
proof -
  have "lower (''%'' @ nm @ ''%'') = CHR ''%'' # (lower nm @ ''%'')"
    by (simp add: lower_def lower_char_def)
  then have "ilike esc (''%'' @ nm @ ''%'') s
             \<longleftrightarrow> (\<exists>i\<le>length (lower s). like esc (lower nm @ ''%'') (drop i (lower s)))"
    by (simp only: ilike_def like_percent_some_offset)
  also have "\<dots> \<longleftrightarrow> (\<exists>i\<le>length (lower s).
                 take (length (lower nm)) (drop i (lower s)) = lower nm)"
    by (simp only: like_plain_prefix [OF plain_lower [OF assms]])
  also have "\<dots> \<longleftrightarrow> contains_ci nm s"
    by (simp only: contains_ci_def contains_iff)
  finally show ?thesis .
qed

lemma search_plain:
  assumes "plain nm"
  shows "search_players_by_name esc nm skip limit db =
           (let found = take limit (drop skip
                          (filter (\<lambda>p. contains_ci nm (name p)) (players db)))
            in if found = []
               then Inl (HTTPException 404 ''No players found with the given name'')
               else Inr found)"
  unfolding search_players_by_name_def by (simp only: ilike_plain [OF assms])

text \<open>
  Claim C6. The search for \<^verbatim>\<open>ALI\<close> finds the stored Alice. The search for
  \<^verbatim>\<open>a_i\<close> finds her too, under either escape rule, although her name does not
  contain \<^verbatim>\<open>a_i\<close>: the underscore of the search string is taken as the wildcard of
  \<^verbatim>\<open>LIKE\<close>. For a search string without such a character the search returns the page
  of the players whose name contains it, case ignored (\<open>search_plain\<close>).
\<close>

theorem search_wildcard_matches:
  "contains_ci ''ALI'' ''Alice'' \<and>
   search_players_by_name False ''ALI'' 0 100 db_alice = Inr (players db_alice) \<and>
   \<not> contains_ci ''a_i'' ''Alice'' \<and>
   search_players_by_name False ''a_i'' 0 100 db_alice = Inr (players db_alice) \<and>
   search_players_by_name True ''a_i'' 0 100 db_alice = Inr (players db_alice)"
proof -
  have low: "lower ''Alice'' = ''alice''" "lower ''ALI'' = ''ali''" "lower ''a_i'' = ''a_i''"
    "lower ''%ALI%'' = ''%ali%''" "lower ''%a_i%'' = ''%a_i%''"
    by (simp_all add: lower_def lower_char_def char_of_eq_iff take_bit_eq_mod)
  have offs: "[0..<Suc (length ''alice'')] = [0, 1, 2, 3, 4, 5]"
    by (simp add: upt_rec)
  have a: "contains_ci ''ALI'' ''Alice''"
    unfolding contains_ci_def low contains_def offs by simp
  have b: "\<not> contains_ci ''a_i'' ''Alice''"
    unfolding contains_ci_def low contains_def offs by simp
  have m1: "ilike False (''%'' @ ''ALI'' @ ''%'') ''Alice''"
    using low by (simp add: ilike_def)
  have m2: "ilike False (''%'' @ ''a_i'' @ ''%'') ''Alice''"
    using low by (simp add: ilike_def)
  have m3: "ilike True (''%'' @ ''a_i'' @ ''%'') ''Alice''"
    using low by (simp add: ilike_def)
  show ?thesis
    using a b m1 m2 m3
    by (simp add: search_players_by_name_def db_alice_players del: append.simps)
qed

end
